theory Spec2Isabelle
  imports Main "HOL-Library.Log_Nat"
begin

section \<open>The instance-types listing command of rosa\<close>

text \<open>
  This theory embeds \<^verbatim>\<open>cmd/list/instancetypes/cmd.go\<close>: the formatter
  \<^verbatim>\<open>ByteCountIEC\<close> and the command body \<^verbatim>\<open>run\<close>.

  Go's \<^verbatim>\<open>int\<close> is taken to be 64 bits wide (the 64-bit platforms rosa is built for):
  an \<^verbatim>\<open>int\<close> is an \<^typ>\<open>int\<close> in the range \<open>- 2^63 \<le> i < 2^63\<close>, and the one
  multiplication of the source that could leave the range is wrapped explicitly.
\<close>

subsection \<open>Machine arithmetic\<close>

datatype panic = DivideByZero | IndexOutOfRange

text \<open>Two's complement wrap-around of a 64-bit signed integer.\<close>

definition wrap64 :: "int \<Rightarrow> int" where
  "wrap64 x = (x + 2 ^ 63) mod 2 ^ 64 - 2 ^ 63"

text \<open>Go's integer division \<^verbatim>\<open>a / b\<close> truncates towards zero; the caller checks \<open>b = 0\<close>,
  where Go panics.\<close>

definition quo :: "int \<Rightarrow> int \<Rightarrow> int" where
  "quo a b = sgn a * sgn b * (\<bar>a\<bar> div \<bar>b\<bar>)"

text \<open>Rounding the fraction \<open>a / d\<close> (with \<open>0 \<le> a\<close> and \<open>0 < d\<close>) to the nearest integer,
  a tie going to the even neighbour: the rounding of IEEE 754 arithmetic and of Go's
  \<^verbatim>\<open>strconv\<close>, which \<^verbatim>\<open>fmt\<close> uses for \<^verbatim>\<open>%.1f\<close>.\<close>

definition round_half_even :: "int \<Rightarrow> int \<Rightarrow> int" where
  "round_half_even a d =
     (let q = a div d; r = a mod d
      in if d < 2 * r \<or> (2 * r = d \<and> odd q) then q + 1 else q)"

text \<open>
  The conversion \<^verbatim>\<open>float64(b)\<close> of an integer: a float64 has 53 significant bits, so an
  integer of at most 53 bits is kept as it is and a longer one is rounded to the nearest
  multiple of \<open>2 ^ (bitlen - 53)\<close>, ties to even. The result is again an integer.
\<close>

definition float64_of_int :: "int \<Rightarrow> int" where
  "float64_of_int b =
     (let a = \<bar>b\<bar>; e = bitlen a
      in if e \<le> 53 then b
         else sgn b * (round_half_even a (2 ^ nat (e - 53)) * 2 ^ nat (e - 53)))"

subsection \<open>Formatting verbs of \<^verbatim>\<open>fmt\<close>\<close>

definition digit_char :: "nat \<Rightarrow> char" where
  "digit_char d = ''0123456789'' ! d"

fun show_nat :: "nat \<Rightarrow> string" where
  "show_nat n = (if n < 10 then [digit_char n]
                 else show_nat (n div 10) @ [digit_char (n mod 10)])"

declare show_nat.simps [simp del]

text \<open>The verb \<^verbatim>\<open>%d\<close>.\<close>

definition show_int :: "int \<Rightarrow> string" where
  "show_int i = (if i < 0 then CHR ''-'' # show_nat (nat (- i)) else show_nat (nat i))"

text \<open>
  The verb \<^verbatim>\<open>%.1f\<close> applied to the quotient \<^verbatim>\<open>float64(b)/float64(div)\<close>, given as
  numerator \<open>num\<close> and denominator \<open>den\<close>. Where the source reaches this line, \<open>den\<close> is a
  power of two between \<open>2^10\<close> and \<open>2^60\<close> (lemma \<open>scale_loop_B\<close> below), so the
  floating-point division only changes the exponent and is exact; the digits printed
  are those of the exact quotient rounded to one decimal, ties to even.
\<close>

definition tenths :: "int \<Rightarrow> int \<Rightarrow> int" where
  "tenths num den = round_half_even (\<bar>num\<bar> * 10) den"

definition format_f1 :: "int \<Rightarrow> int \<Rightarrow> string" where
  "format_f1 num den =
     (let t = tenths num den
      in (if num < 0 then ''-'' else '''')
         @ show_nat (nat (t div 10)) @ ''.'' @ [digit_char (nat (t mod 10))])"

subsection \<open>\<^verbatim>\<open>ByteCountIEC\<close>\<close>

text \<open>
  \<^verbatim>\<open>var unit int; if uValue == "B" { unit = 1024 }\<close>: the variable keeps Go's zero value
  for every other unit string, and is never assigned again.
\<close>

definition unit_of :: "string \<Rightarrow> int" where
  "unit_of uValue = (if uValue = ''B'' then 1024 else 0)"

text \<open>
  The loop \<^verbatim>\<open>for n := b / unit; n >= unit; n /= unit { div *= int64(unit); exp++ }\<close>,
  from the state \<open>(n, div, exp)\<close> at its test. The body runs before the post statement
  \<^verbatim>\<open>n /= unit\<close>, which panics when \<open>unit\<close> is zero.
\<close>

function scale_loop :: "string \<Rightarrow> int \<Rightarrow> int \<Rightarrow> nat \<Rightarrow> panic + (int \<times> nat)" where
  "scale_loop uValue n dv ex =
     (if unit_of uValue \<le> n then
        (if unit_of uValue = 0 then Inl DivideByZero
         else scale_loop uValue (quo n (unit_of uValue)) (wrap64 (dv * unit_of uValue)) (ex + 1))
      else Inr (dv, ex))"
  by pat_completeness auto
termination
proof (relation "measure (\<lambda>(uValue, n, dv, ex). nat n)")
  show "wf (measure (\<lambda>(uValue, n, dv, ex). nat n))" by simp
next
  fix uValue :: string and n dv :: int and ex :: nat
  assume le: "unit_of uValue \<le> n" and nz: "unit_of uValue \<noteq> 0"
  from nz have u: "unit_of uValue = 1024" by (simp add: unit_of_def split: if_splits)
  with le have "1024 \<le> n" by simp
  then have "quo n 1024 = n div 1024" by (simp add: quo_def)
  with \<open>1024 \<le> n\<close> u
  show "((uValue, quo n (unit_of uValue), wrap64 (dv * unit_of uValue), ex + 1),
         (uValue, n, dv, ex)) \<in> measure (\<lambda>(uValue, n, dv, ex). nat n)"
    by simp
qed

declare scale_loop.simps [simp del]

definition ByteCountIEC :: "int \<Rightarrow> string \<Rightarrow> panic + string" where
  "ByteCountIEC b uValue =
     (let unit = unit_of uValue
      in if b < unit then Inr (show_int b @ '' B'')
         else if unit = 0 then Inl DivideByZero
         else case scale_loop uValue (quo b unit) (wrap64 unit) 0 of
                Inl p \<Rightarrow> Inl p
              | Inr (dv, ex) \<Rightarrow>
                  if ex < length ''KMGTPE''
                  then Inr (format_f1 (float64_of_int b) (float64_of_int dv)
                            @ '' '' @ [''KMGTPE'' ! ex] @ ''iB'')
                  else Inl IndexOutOfRange)"

subsection \<open>The collaborators of \<^verbatim>\<open>run\<close>\<close>

text \<open>
  A machine type as \<^verbatim>\<open>run\<close> reads it: \<open>CPU\<close> is \<^verbatim>\<open>int(CPU().Value())\<close> and
  \<open>Memory\<close> is \<^verbatim>\<open>int(Memory().Value())\<close>, with the unit string beside it.
\<close>

record MachineType =
  ID :: string
  Category :: string
  CPU :: int
  Memory :: int
  MemoryUnit :: string

text \<open>An element of \<^verbatim>\<open>machineTypes.Items\<close>.\<close>

record Item =
  MachineType :: MachineType
  Available :: bool

text \<open>
  The AWS client: its region and the answers of its two calls of
  \<^verbatim>\<open>DescribeAvailabilityZones\<close>, the one that fills the prompt (line 164) and the one
  that validates (line 187). An error is \<open>Inl\<close> of its text.
\<close>

record Client =
  client_GetRegion :: string
  DescribeAvailabilityZones_prompt :: "string + string list"
  DescribeAvailabilityZones_check :: "string + string list"

text \<open>
  What a run does that can be seen from outside. A call of \<^verbatim>\<open>r.Reporter.Errorf\<close> is kept
  as the source writes it, the format string and its operands; \<^verbatim>\<open>Warnf\<close> and \<^verbatim>\<open>Debugf\<close>
  are only called with a constant text.
\<close>

datatype event =
    is_Errorf: Errorf string "string list"
  | Warnf string
  | Debugf string
  | GetAvailableMachineTypesInRegion_call string "string list" string
  | Print "MachineType list"
  | Fprintf string
  | Flush
  | Cleanup

datatype outcome = Exit int | Return | Panic panic

text \<open>
  What the packages outside this file answer in one run of the command.
  \<^verbatim>\<open>GetDatabaseRegionList\<close> returns a list and an error, and \<^verbatim>\<open>run\<close> reads the list
  whether or not the error is nil. \<^verbatim>\<open>aws.GetAWSClientForUserRegion\<close> is given the reporter
  and returns no error: it either returns a client or reports and ends the process
  itself (\<open>Inl\<close> of its calls of \<^verbatim>\<open>Errorf\<close>, format and operands, and its exit status).
\<close>

record env =
  GetDatabaseRegionList :: "string list \<times> string option"
  GetAWSClientForUserRegion :: "string list \<Rightarrow> ((string \<times> string list) list \<times> int) + Client"
  GetRegion :: "string + string"
  GetRegionList :: "string + string list"
  interactive_Enabled :: bool
  GetOption :: "string list \<Rightarrow> string \<Rightarrow> string + string"
  Changed_availability_zones :: bool
  args_availabilityZones :: "string list"
  args_roleArn :: string
  GetBool :: "string + bool"
  GetMultipleOptions :: "string list \<Rightarrow> string + string list"
  GetAvailableMachineTypesInRegion :: "string \<Rightarrow> string list \<Rightarrow> string \<Rightarrow> string + Item list"
  output_HasFlag :: bool
  output_Print :: "MachineType list \<Rightarrow> string option"

text \<open>
  Modelled from the spec: \<^verbatim>\<open>helper.Contains\<close> (package \<^verbatim>\<open>pkg/helper\<close>) is not among the
  sources; section 4.2 says that for each candidate "membership is tested against the
  authoritative set".
\<close>

definition Contains :: "string list \<Rightarrow> string \<Rightarrow> bool" where
  "Contains xs x = (x \<in> set xs)"


subsection \<open>\<^verbatim>\<open>run\<close>\<close>

text \<open>
  A run is the list of what the command reported, called and wrote, in order, and how
  it ended. Each stage either ends the run (\<open>Inl\<close>) or hands on to the next (\<open>Inr\<close>).
\<close>

type_synonym finished = "event list \<times> outcome"

text \<open>Lines 110 to 112: the failed fetch of the supported regions is reported, and the
  run goes on to build the client.\<close>

definition supported_regions_report :: "env \<Rightarrow> event list" where
  "supported_regions_report e =
     (case snd (GetDatabaseRegionList e) of
        Some err \<Rightarrow> [Errorf ''Unable to retrieve supported regions: %v'' [err]]
      | None \<Rightarrow> [])"

text \<open>
  Lines 109 to 145: the supported regions, the client and the region. Line 125 is
  \<^verbatim>\<open>Errorf(fmt.Sprintf("%s", err))\<close>: the text of the error is the format string, with no
  operands.
\<close>

definition resolve_region :: "env \<Rightarrow> finished + (event list \<times> Client \<times> string)" where
  "resolve_region e =
     (let supportedRegions = fst (GetDatabaseRegionList e);
          t = supported_regions_report e
      in case GetAWSClientForUserRegion e supportedRegions of
           Inl (reported, status) \<Rightarrow>
             Inl (t @ map (\<lambda>(format, operands). Errorf format operands) reported, Exit status)
         | Inr awsClient \<Rightarrow>
             (case GetRegion e of
                Inl err \<Rightarrow> Inl (t @ [Errorf ''Error getting region: %v'' [err]], Exit 1)
              | Inr region \<Rightarrow>
                  (case GetRegionList e of
                     Inl err \<Rightarrow> Inl (t @ [Errorf err []], Exit 1)
                   | Inr regionList \<Rightarrow>
                       if region = [] then
                         Inl (t @ [Errorf ''Expected a valid AWS region'' []], Exit 1)
                       else if interactive_Enabled e then
                         (case GetOption e regionList region of
                            Inl err \<Rightarrow>
                              Inl (t @ [Errorf ''Expected a valid AWS region: %s'' [err]], Exit 1)
                          | Inr region' \<Rightarrow> Inr (t, awsClient, region'))
                       else Inr (t, awsClient, region))))"

text \<open>
  Lines 147 to 184: the requested zones. The result is the local \<^verbatim>\<open>availabilityZones\<close>
  with the two booleans \<^verbatim>\<open>isAvailabilityZonesSet\<close> and \<^verbatim>\<open>selectAvailabilityZones\<close>.
\<close>

definition select_zones ::
  "env \<Rightarrow> Client \<Rightarrow> event list \<Rightarrow> finished + (string list \<times> bool \<times> bool)" where
  "select_zones e awsClient t =
     (let isAvailabilityZonesSet = Changed_availability_zones e;
          availabilityZones = (if isAvailabilityZonesSet then args_availabilityZones e else [])
      in if interactive_Enabled e then
           (case GetBool e of
              Inl err \<Rightarrow>
                Inl (t @ [Errorf ''Expected a valid value for select-availability-zones: %s'' [err]],
                     Exit 1)
            | Inr selectAvailabilityZones \<Rightarrow>
                if selectAvailabilityZones then
                  (case DescribeAvailabilityZones_prompt awsClient of
                     Inl err \<Rightarrow>
                       Inl (t @ [Errorf ''Failed to get the list of the availability zone: %s'' [err]],
                            Exit 1)
                   | Inr optionsAvailabilityZones \<Rightarrow>
                       (case GetMultipleOptions e optionsAvailabilityZones of
                          Inl err \<Rightarrow>
                            Inl (t @ [Errorf ''Expected valid availability zones: %s'' [err]], Exit 1)
                        | Inr chosen \<Rightarrow> Inr (chosen, isAvailabilityZonesSet, True)))
                else Inr (availabilityZones, isAvailabilityZonesSet, False))
         else Inr (availabilityZones, isAvailabilityZonesSet, False))"



text \<open>Lines 192 to 198: the loop over the requested zones; \<open>Some\<close> is the report of the
  zone the loop stops at.\<close>

fun check_zones :: "string list \<Rightarrow> string \<Rightarrow> string list \<Rightarrow> event option" where
  "check_zones regionAvailabilityZones region [] = None"
| "check_zones regionAvailabilityZones region (az # azs) =
     (if \<not> Contains regionAvailabilityZones az then
        Some (Errorf (''Expected a valid availability zone, ''
                      @ '''%s' doesn't belong to region '%s' availability zones'')
                [az, region])
      else check_zones regionAvailabilityZones region azs)"

text \<open>Lines 186 to 199.\<close>

definition validate_zones ::
  "Client \<Rightarrow> event list \<Rightarrow> string list \<times> bool \<times> bool \<Rightarrow> finished + event list" where
  "validate_zones awsClient t sel =
     (case sel of (availabilityZones, isAvailabilityZonesSet, selectAvailabilityZones) \<Rightarrow>
        if isAvailabilityZonesSet \<or> selectAvailabilityZones then
          (case DescribeAvailabilityZones_check awsClient of
             Inl err \<Rightarrow>
               Inl (t @ [Errorf ''Failed to get the list of the availability zone: %s'' [err]],
                    Exit 1)
           | Inr regionAvailabilityZones \<Rightarrow>
               (case check_zones regionAvailabilityZones (client_GetRegion awsClient)
                       availabilityZones of
                  Some report \<Rightarrow> Inl (t @ [report], Exit 1)
                | None \<Rightarrow> Inr t))
        else Inr t)"

text \<open>Lines 233 to 244: the rows of the table. A panic of the formatter ends the loop.\<close>

fun write_rows :: "Item list \<Rightarrow> event list \<Rightarrow> event list \<times> panic option" where
  "write_rows [] t = (t, None)"
| "write_rows (machine # machines) t =
     (if \<not> Available machine then write_rows machines t
      else let availableMachine = MachineType machine
           in case ByteCountIEC (Memory availableMachine) (MemoryUnit availableMachine) of
                Inl p \<Rightarrow> (t, Some p)
              | Inr memory \<Rightarrow>
                  write_rows machines
                    (t @ [Fprintf (ID availableMachine @ [CHR 0x09] @ Category availableMachine
                                   @ [CHR 0x09] @ show_int (CPU availableMachine)
                                   @ [CHR 0x09] @ memory @ [CHR 0x0A])]))"

definition table_header :: string where
  "table_header = ''ID'' @ [CHR 0x09] @ ''CATEGORY'' @ [CHR 0x09] @ ''CPU_CORES'' @ [CHR 0x09]
                  @ ''MEMORY'' @ [CHR 0x09] @ [CHR 0x0A]"

definition no_machine_types :: string where
  "no_machine_types = ''There are no machine types supported for your account. ''
                      @ ''Contact Red Hat support.''"

text \<open>
  Lines 201 to 246. \<^verbatim>\<open>os.Exit\<close> does not run the deferred \<^verbatim>\<open>r.Cleanup()\<close>; a return
  and a panic do.
\<close>

definition list_instance_types :: "env \<Rightarrow> string \<Rightarrow> event list \<Rightarrow> finished" where
  "list_instance_types e region t0 =
     (let t = t0 @ [Debugf ''Fetching instance types'',
                    GetAvailableMachineTypesInRegion_call region (args_availabilityZones e)
                      (args_roleArn e)]
      in case GetAvailableMachineTypesInRegion e region (args_availabilityZones e)
                (args_roleArn e) of
           Inl err \<Rightarrow> (t @ [Errorf ''Failed to fetch instance types: %v'' [err]], Exit 1)
         | Inr Items \<Rightarrow>
             if output_HasFlag e then
               (let instanceTypes = map MachineType Items
                in case output_Print e instanceTypes of
                     Some err \<Rightarrow> (t @ [Print instanceTypes, Errorf ''%s'' [err]], Exit 1)
                   | None \<Rightarrow> (t @ [Print instanceTypes], Exit 0))
             else if length Items = 0 then
               (t @ [Warnf no_machine_types], Exit 1)
             else
               (case write_rows Items (t @ [Fprintf table_header]) of
                  (t', Some p) \<Rightarrow> (t' @ [Cleanup], Panic p)
                | (t', None) \<Rightarrow> (t' @ [Flush, Cleanup], Return)))"

text \<open>Lines 109 to 199: everything before the listing call.\<close>

definition prepare :: "env \<Rightarrow> finished + (event list \<times> string)" where
  "prepare e =
     (case resolve_region e of
        Inl f \<Rightarrow> Inl f
      | Inr (t, awsClient, region) \<Rightarrow>
          (case select_zones e awsClient t of
             Inl f \<Rightarrow> Inl f
           | Inr sel \<Rightarrow>
               (case validate_zones awsClient t sel of
                  Inl f \<Rightarrow> Inl f
                | Inr t' \<Rightarrow> Inr (t', region))))"

definition run :: "env \<Rightarrow> finished" where
  "run e = (case prepare e of Inl f \<Rightarrow> f | Inr (t, region) \<Rightarrow> list_instance_types e region t)"

subsection \<open>Reading a formatted size back\<close>

text \<open>
  What a reader sees in a string such as \<open>''1.5 KiB''\<close>: the number before the blank, the
  unit from the blank on, and the value of the number in tenths (\<open>15\<close> here, and \<open>5000\<close>
  for \<open>''500''\<close>).
\<close>

definition digit_val :: "char \<Rightarrow> nat" where
  "digit_val c = of_char c - 48"

definition read_nat :: "string \<Rightarrow> nat" where
  "read_nat s = foldl (\<lambda>a c. 10 * a + digit_val c) 0 s"

definition shown_number :: "string \<Rightarrow> string" where
  "shown_number s = takeWhile (\<lambda>c. c \<noteq> CHR '' '') s"

definition shown_unit :: "string \<Rightarrow> string" where
  "shown_unit s = dropWhile (\<lambda>c. c \<noteq> CHR '' '') s"

definition read_tenths :: "string \<Rightarrow> nat" where
  "read_tenths s =
     10 * read_nat (takeWhile (\<lambda>c. c \<noteq> CHR ''.'') s)
     + read_nat (drop 1 (dropWhile (\<lambda>c. c \<noteq> CHR ''.'') s))"

subsection \<open>Sample runs\<close>

definition us_east_1 :: Client where
  "us_east_1 = \<lparr>client_GetRegion = ''us-east-1'',
                 DescribeAvailabilityZones_prompt = Inr [''us-east-1a'', ''us-east-1b''],
                 DescribeAvailabilityZones_check = Inr [''us-east-1a'', ''us-east-1b'']\<rparr>"

definition m5_xlarge :: Item where
  "m5_xlarge = \<lparr>MachineType = \<lparr>ID = ''m5.xlarge'', Category = ''general_purpose'', CPU = 4,
                                Memory = 17179869184, MemoryUnit = ''B''\<rparr>,
                 Available = True\<rparr>"

definition p4d_24xlarge :: Item where
  "p4d_24xlarge = \<lparr>MachineType = \<lparr>ID = ''p4d.24xlarge'', Category = ''accelerated_computing'',
                                   CPU = 96, Memory = 1236950581248, MemoryUnit = ''B''\<rparr>,
                    Available = False\<rparr>"

text \<open>A plain run: no flag, no prompt, one machine type on offer.\<close>

definition plain_env :: env where
  "plain_env = \<lparr>GetDatabaseRegionList = ([''us-east-1'', ''eu-west-1''], None),
                 GetAWSClientForUserRegion = (\<lambda>supportedRegions. Inr us_east_1),
                 GetRegion = Inr ''us-east-1'',
                 GetRegionList = Inr [''us-east-1'', ''eu-west-1''],
                 interactive_Enabled = False,
                 GetOption = (\<lambda>options dflt. Inr dflt),
                 Changed_availability_zones = False,
                 args_availabilityZones = [],
                 args_roleArn = [],
                 GetBool = Inr False,
                 GetMultipleOptions = (\<lambda>options. Inr []),
                 GetAvailableMachineTypesInRegion = (\<lambda>region zones roleArn. Inr [m5_xlarge]),
                 output_HasFlag = False,
                 output_Print = (\<lambda>instanceTypes. None)\<rparr>"

text \<open>\<^verbatim>\<open>--availability-zones us-east-1a,us-east-1z\<close> and \<^verbatim>\<open>--availability-zones us-east-1a\<close>.\<close>

definition bad_zone_env :: env where
  "bad_zone_env = plain_env\<lparr>Changed_availability_zones := True,
                             args_availabilityZones := [''us-east-1a'', ''us-east-1z'']\<rparr>"

definition good_zone_env :: env where
  "good_zone_env = plain_env\<lparr>Changed_availability_zones := True,
                              args_availabilityZones := [''us-east-1a'']\<rparr>"

text \<open>Interactive mode, the user ticking \<open>us-east-1b\<close> in the prompt; no flag.\<close>

definition prompt_env :: env where
  "prompt_env = plain_env\<lparr>interactive_Enabled := True, GetBool := Inr True,
                           GetMultipleOptions := (\<lambda>options. Inr [''us-east-1b''])\<rparr>"

text \<open>The service answering with no machine type, and with one that is not available.\<close>

definition empty_env :: env where
  "empty_env = plain_env\<lparr>GetAvailableMachineTypesInRegion := (\<lambda>region zones roleArn. Inr [])\<rparr>"

definition unavailable_env :: env where
  "unavailable_env =
     plain_env\<lparr>GetAvailableMachineTypesInRegion := (\<lambda>region zones roleArn. Inr [p4d_24xlarge])\<rparr>"

text \<open>The same two with \<^verbatim>\<open>--output json\<close>.\<close>

definition empty_json_env :: env where
  "empty_json_env = empty_env\<lparr>output_HasFlag := True\<rparr>"

definition unavailable_json_env :: env where
  "unavailable_json_env = unavailable_env\<lparr>output_HasFlag := True\<rparr>"

text \<open>
  Interactive mode with the flag \<^verbatim>\<open>--availability-zones us-east-1z\<close>, the user asking
  to select zones and ticking \<open>us-east-1a\<close>.
\<close>

definition flag_and_prompt_env :: env where
  "flag_and_prompt_env =
     plain_env\<lparr>interactive_Enabled := True, Changed_availability_zones := True,
               args_availabilityZones := [''us-east-1z''], GetBool := Inr True,
               GetMultipleOptions := (\<lambda>options. Inr [''us-east-1a''])\<rparr>"

text \<open>
  Interactive mode with the flag \<^verbatim>\<open>--availability-zones eu-west-1a\<close>, the user picking
  \<open>eu-west-1\<close> at the region prompt and not selecting zones; the client was built for
  \<open>us-east-1\<close>.
\<close>

definition other_region_env :: env where
  "other_region_env =
     plain_env\<lparr>interactive_Enabled := True, GetOption := (\<lambda>options dflt. Inr ''eu-west-1''),
               Changed_availability_zones := True, args_availabilityZones := [''eu-west-1a'']\<rparr>"

text \<open>
  The supported regions cannot be fetched: the fetch returns no list and an error, and
  the client is only built for a region in the list it is handed.
\<close>

definition client_if_supported ::
  "string list \<Rightarrow> ((string \<times> string list) list \<times> int) + Client" where
  "client_if_supported supportedRegions =
     (if Contains supportedRegions ''us-east-1'' then Inr us_east_1
      else Inl ([(''Unsupported region '%s', available regions: %s'', [''us-east-1'', []])], 1))"

definition regions_down_env :: env where
  "regions_down_env = plain_env\<lparr>GetDatabaseRegionList := ([], Some ''connection refused''),
                                 GetAWSClientForUserRegion := client_if_supported\<rparr>"

section \<open>Properties of the formatter\<close>

subsection \<open>Integer arithmetic\<close>

lemma quo_nonneg: "0 \<le> a \<Longrightarrow> 0 < b \<Longrightarrow> quo a b = a div b"
  by (cases "a = 0") (simp_all add: quo_def)

lemma wrap64_id: "- (2 ^ 63) \<le> x \<Longrightarrow> x < 2 ^ 63 \<Longrightarrow> wrap64 x = x"
  by (simp add: wrap64_def)

lemma unit_of_B: "unit_of ''B'' = 1024"
  by (simp add: unit_of_def)

lemma unit_of_other: "uValue \<noteq> ''B'' \<Longrightarrow> unit_of uValue = 0"
  by (simp add: unit_of_def)

text \<open>
  The loop, started as the source starts it, keeps \<open>div = 1024 ^ (exp + 1)\<close> and
  \<open>n = b / div\<close>, never wraps, and stops in the band of \<open>b\<close>.
\<close>

lemma scale_loop_B:
  assumes "uValue = ''B''" "dv = 1024 ^ (ex + 1)" "dv \<le> b" "b < 2 ^ 63" "n = b div dv"
  shows "\<exists>ex'. scale_loop uValue n dv ex = Inr (1024 ^ (ex' + 1), ex') \<and> ex \<le> ex'
           \<and> 1024 ^ (ex' + 1) \<le> b \<and> b < 1024 ^ (ex' + 2)"
  using assms
proof (induction uValue n dv ex rule: scale_loop.induct)
  case (1 uValue n dv ex)
  have u: "unit_of uValue = 1024" using "1.prems"(1) by (simp add: unit_of_def)
  have dvpos: "0 < dv" using "1.prems"(2) by simp
  show ?case
  proof (cases "1024 \<le> n")
    case True
    have "1024 * dv \<le> (b div dv) * dv" using True "1.prems"(5) dvpos by simp
    moreover have "(b div dv) * dv + b mod dv = b" by simp
    moreover have "0 \<le> b mod dv" using dvpos by simp
    ultimately have le: "dv * 1024 \<le> b" by linarith
    then have w: "wrap64 (dv * 1024) = dv * 1024"
      using dvpos "1.prems"(4) by (intro wrap64_id) auto
    have q: "quo n 1024 = b div (dv * 1024)"
      using True "1.prems"(5) dvpos by (simp add: quo_nonneg zdiv_zmult2_eq)
    have "\<exists>ex'. scale_loop uValue (quo n (unit_of uValue)) (wrap64 (dv * unit_of uValue)) (ex + 1)
              = Inr (1024 ^ (ex' + 1), ex') \<and> ex + 1 \<le> ex'
              \<and> 1024 ^ (ex' + 1) \<le> b \<and> b < 1024 ^ (ex' + 2)"
    proof (rule "1.IH")
      show "unit_of uValue \<le> n" using True u by simp
      show "unit_of uValue \<noteq> 0" using u by simp
      show "uValue = ''B''" by (rule "1.prems"(1))
      show "wrap64 (dv * unit_of uValue) = 1024 ^ (ex + 1 + 1)"
        using w u "1.prems"(2) by simp
      show "wrap64 (dv * unit_of uValue) \<le> b" using w u le by simp
      show "b < 2 ^ 63" by (rule "1.prems"(4))
      show "quo n (unit_of uValue) = b div wrap64 (dv * unit_of uValue)"
        using w u q by simp
    qed
    then obtain ex' where
      "scale_loop uValue (quo n (unit_of uValue)) (wrap64 (dv * unit_of uValue)) (ex + 1)
         = Inr (1024 ^ (ex' + 1), ex')" "ex + 1 \<le> ex'"
      "1024 ^ (ex' + 1) \<le> b" "b < 1024 ^ (ex' + 2)" by blast
    moreover have "scale_loop uValue n dv ex
        = scale_loop uValue (quo n (unit_of uValue)) (wrap64 (dv * unit_of uValue)) (ex + 1)"
      using True u by (subst scale_loop.simps) simp
    ultimately show ?thesis by (intro exI [of _ ex']) simp
  next
    case False
    have r: "scale_loop uValue n dv ex = Inr (dv, ex)"
      using False u by (subst scale_loop.simps) simp
    have "b div dv \<le> 1023" using False "1.prems"(5) by simp
    then have "(b div dv) * dv \<le> 1023 * dv" using dvpos by (intro mult_right_mono) simp_all
    moreover have "(b div dv) * dv + b mod dv = b" by simp
    moreover have "b mod dv < dv" using dvpos by simp
    ultimately have "b < 1024 * dv" by linarith
    then have "b < 1024 ^ (ex + 2)" using "1.prems"(2) by simp
    then show ?thesis using r "1.prems"(2,3) by (intro exI [of _ ex]) simp
  qed
qed

lemma band_exp_le5:
  assumes "(1024::int) ^ (ex + 1) \<le> b" "b < 2 ^ 63"
  shows "ex \<le> 5"
proof -
  have "(2::int) ^ (10 * (ex + 1)) = (2 ^ 10) ^ (ex + 1)"
    by (rule power_mult)
  then have "(2::int) ^ (10 * (ex + 1)) = 1024 ^ (ex + 1)" by simp
  with assms have "(2::int) ^ (10 * (ex + 1)) < 2 ^ 63" by linarith
  then have "10 * (ex + 1) < 63" by (rule power_less_imp_less_exp [rotated]) simp
  then show ?thesis by simp
qed

lemma band_unique:
  assumes "(1024::int) ^ (e1 + 1) \<le> b" "b < 1024 ^ (e1 + 2)"
          "(1024::int) ^ (e2 + 1) \<le> b" "b < 1024 ^ (e2 + 2)"
  shows "e1 = e2"
proof -
  have "(1024::int) ^ (e1 + 1) < 1024 ^ (e2 + 2)" using assms by linarith
  then have a: "e1 + 1 < e2 + 2" by (rule power_less_imp_less_exp [rotated]) simp
  have "(1024::int) ^ (e2 + 1) < 1024 ^ (e1 + 2)" using assms by linarith
  then have "e2 + 1 < e1 + 2" by (rule power_less_imp_less_exp [rotated]) simp
  with a show ?thesis by simp
qed

subsection \<open>Rounding\<close>

lemma rhe_bounds:
  "a div d \<le> round_half_even a d \<and> round_half_even a d \<le> a div d + 1"
  by (simp add: round_half_even_def Let_def)

lemma rhe_mono:
  assumes "0 < d" "a1 \<le> a2"
  shows "round_half_even a1 d \<le> round_half_even a2 d"
proof (cases "a1 div d = a2 div d")
  case True
  have "a1 div d * d + a1 mod d = a1" "a2 div d * d + a2 mod d = a2" by simp_all
  with True assms(2) have "a1 mod d \<le> a2 mod d" by (metis add_le_cancel_left)
  with True show ?thesis by (auto simp add: round_half_even_def Let_def)
next
  case False
  have "a1 div d \<le> a2 div d" using assms by (simp add: zdiv_mono1)
  with False have "a1 div d + 1 \<le> a2 div d" by simp
  with rhe_bounds [of a1 d] rhe_bounds [of a2 d] show ?thesis by linarith
qed

lemma rhe_nearest:
  assumes "0 < d"
  shows "\<bar>2 * (a - d * round_half_even a d)\<bar> \<le> d"
proof -
  have e: "a = d * (a div d) + a mod d" by simp
  have m: "0 \<le> a mod d" "a mod d < d" using assms by simp_all
  show ?thesis
  proof (cases "d < 2 * (a mod d) \<or> (2 * (a mod d) = d \<and> odd (a div d))")
    case True
    then have "round_half_even a d = a div d + 1" by (simp add: round_half_even_def Let_def)
    then have "a - d * round_half_even a d = a mod d - d"
      using e by (simp add: algebra_simps)
    with True m show ?thesis by auto
  next
    case False
    then have "round_half_even a d = a div d" by (simp add: round_half_even_def Let_def)
    then have "a - d * round_half_even a d = a mod d"
      using e by (simp add: algebra_simps)
    with False m show ?thesis by auto
  qed
qed

lemma rhe_multiple: "0 < d \<Longrightarrow> round_half_even (k * d) d = k"
  by (simp add: round_half_even_def Let_def)

lemma tenths_mono:
  assumes "0 \<le> n1" "n1 \<le> n2" "0 < den"
  shows "tenths n1 den \<le> tenths n2 den"
  unfolding tenths_def using assms by (intro rhe_mono) simp_all

lemma tenths_nonneg:
  assumes "0 < den"
  shows "0 \<le> tenths n den"
proof -
  have "0 \<le> (\<bar>n\<bar> * 10) div den" using assms by (simp add: pos_imp_zdiv_nonneg_iff)
  with rhe_bounds [of "\<bar>n\<bar> * 10" den] show ?thesis unfolding tenths_def by linarith
qed

subsection \<open>The conversion to float64\<close>

lemma bitlen_mono: "a \<le> b \<Longrightarrow> bitlen a \<le> bitlen b"
  by (simp add: bitlen_def floorlog_mono)

lemma float64_of_int_small:
  assumes "0 \<le> b" "b < 2 ^ 53"
  shows "float64_of_int b = b"
proof (cases "b = 0")
  case True
  then show ?thesis by (simp add: float64_of_int_def)
next
  case False
  with assms have "0 < b" by simp
  from bitlen_bounds [OF this] assms(2) have "(2::int) ^ nat (bitlen b - 1) < 2 ^ 53" by linarith
  then have "nat (bitlen b - 1) < 53" by (rule power_less_imp_less_exp [rotated]) simp
  then have "bitlen b \<le> 53" by simp
  with assms show ?thesis by (simp add: float64_of_int_def Let_def)
qed

lemma float64_of_int_range:
  assumes "0 < a"
  shows "2 ^ nat (bitlen a - 1) \<le> float64_of_int a \<and> float64_of_int a \<le> 2 ^ nat (bitlen a)"
proof (cases "bitlen a \<le> 53")
  case True
  with bitlen_bounds [OF assms] assms show ?thesis
    by (simp add: float64_of_int_def Let_def)
next
  case False
  define s where "s = nat (bitlen a - 53)"
  have bl: "nat (bitlen a - 1) = 52 + s" "nat (bitlen a) = 53 + s"
    using False by (simp_all add: s_def)
  have p: "(0::int) < 2 ^ s" by simp
  have f: "float64_of_int a = round_half_even a (2 ^ s) * 2 ^ s"
    using False assms by (simp add: float64_of_int_def Let_def s_def)
  have lo: "(2::int) ^ 52 * 2 ^ s \<le> a" and hi: "a \<le> 2 ^ 53 * 2 ^ s"
    using bitlen_bounds [OF assms] by (simp_all add: bl power_add)
  have "round_half_even (2 ^ 52 * 2 ^ s) (2 ^ s) \<le> round_half_even a (2 ^ s)"
    by (rule rhe_mono [OF p lo])
  then have l: "2 ^ 52 \<le> round_half_even a (2 ^ s)" by (simp only: rhe_multiple [OF p])
  have "round_half_even a (2 ^ s) \<le> round_half_even (2 ^ 53 * 2 ^ s) (2 ^ s)"
    by (rule rhe_mono [OF p hi])
  then have h: "round_half_even a (2 ^ s) \<le> 2 ^ 53" by (simp only: rhe_multiple [OF p])
  from l have "2 ^ 52 * 2 ^ s \<le> round_half_even a (2 ^ s) * 2 ^ s"
    by (intro mult_right_mono) simp_all
  moreover from h have "round_half_even a (2 ^ s) * 2 ^ s \<le> 2 ^ 53 * 2 ^ s"
    by (intro mult_right_mono) simp_all
  ultimately show ?thesis by (simp only: f bl power_add)
qed

lemma float64_of_int_mono:
  assumes "0 \<le> a" "a \<le> b"
  shows "float64_of_int a \<le> float64_of_int b"
proof (cases "a = 0")
  case True
  have "0 \<le> float64_of_int b"
  proof (cases "b = 0")
    case True then show ?thesis by (simp add: float64_of_int_def)
  next
    case False
    with assms True have "0 < b" by simp
    from float64_of_int_range [OF this] show ?thesis
      by (meson order_trans zero_le_numeral zero_le_power)
  qed
  with True show ?thesis by (simp add: float64_of_int_def)
next
  case False
  with assms have pa: "0 < a" and pb: "0 < b" by simp_all
  have le: "bitlen a \<le> bitlen b" by (rule bitlen_mono [OF assms(2)])
  show ?thesis
  proof (cases "bitlen a = bitlen b")
    case True
    show ?thesis
    proof (cases "bitlen a \<le> 53")
      case True
      with \<open>bitlen a = bitlen b\<close> pa pb assms show ?thesis
        by (simp add: float64_of_int_def Let_def)
    next
      case False
      have "round_half_even a (2 ^ nat (bitlen b - 53)) \<le> round_half_even b (2 ^ nat (bitlen b - 53))"
        by (rule rhe_mono [OF _ assms(2)]) simp
      then have "round_half_even a (2 ^ nat (bitlen b - 53)) * 2 ^ nat (bitlen b - 53)
          \<le> round_half_even b (2 ^ nat (bitlen b - 53)) * 2 ^ nat (bitlen b - 53)"
        by (intro mult_right_mono) simp_all
      with False \<open>bitlen a = bitlen b\<close> pa pb show ?thesis
        by (simp add: float64_of_int_def Let_def)
    qed
  next
    case False
    with le have "nat (bitlen a) \<le> nat (bitlen b - 1)" by simp
    then have "(2::int) ^ nat (bitlen a) \<le> 2 ^ nat (bitlen b - 1)"
      by (intro power_increasing) simp_all
    with float64_of_int_range [OF pa] float64_of_int_range [OF pb] show ?thesis by linarith
  qed
qed

text \<open>Every divisor the loop can produce is a float64.\<close>

lemma float64_of_int_pow1024:
  assumes "ex \<le> 5"
  shows "float64_of_int (1024 ^ (ex + 1)) = 1024 ^ (ex + 1)"
proof -
  from assms consider "ex = 0" | "ex = 1" | "ex = 2" | "ex = 3" | "ex = 4" | "ex = 5" by linarith
  then show ?thesis
  proof cases
    case 6
    have "bitlen (1 * 2 ^ 60) = bitlen 1 + 60" by (simp only: bitlen_pow2)
    moreover have "bitlen 1 = 1" by (simp add: bitlen_alt_def)
    ultimately have "bitlen (1152921504606846976) = 61" by simp
    with 6 show ?thesis by (simp add: float64_of_int_def Let_def round_half_even_def)
  qed (simp_all add: float64_of_int_small)
qed

subsection \<open>Digits\<close>

lemma digit_char_cases:
  assumes "(d::nat) < 10"
  obtains "d = 0" | "d = 1" | "d = 2" | "d = 3" | "d = 4" | "d = 5" | "d = 6" | "d = 7"
    | "d = 8" | "d = 9"
proof -
  from assms have "d = 0 \<or> d = 1 \<or> d = 2 \<or> d = 3 \<or> d = 4 \<or> d = 5 \<or> d = 6 \<or> d = 7
    \<or> d = 8 \<or> d = 9" by arith
  with that show ?thesis by blast
qed

lemma digit_val_digit_char: "d < 10 \<Longrightarrow> digit_val (digit_char d) = d"
  by (erule digit_char_cases) (simp_all add: digit_val_def digit_char_def)

lemma digit_char_plain: "d < 10 \<Longrightarrow> digit_char d \<noteq> CHR '' '' \<and> digit_char d \<noteq> CHR ''.''"
  by (erule digit_char_cases) (simp_all add: digit_char_def)

lemma read_nat_Nil: "read_nat [] = 0"
  by (simp add: read_nat_def)

lemma read_nat_single: "read_nat [c] = digit_val c"
  by (simp add: read_nat_def)

lemma read_nat_snoc: "read_nat (s @ [c]) = 10 * read_nat s + digit_val c"
  by (simp add: read_nat_def)

lemma show_nat_digit: "n < 10 \<Longrightarrow> show_nat n = [digit_char n]"
  by (subst show_nat.simps) simp

lemma read_nat_show_nat: "read_nat (show_nat n) = n"
proof (induction n rule: show_nat.induct)
  case (1 n)
  show ?case
  proof (cases "n < 10")
    case True
    then show ?thesis
      by (subst show_nat.simps) (simp add: read_nat_def digit_val_digit_char)
  next
    case False
    then have "read_nat (show_nat n)
        = 10 * read_nat (show_nat (n div 10)) + digit_val (digit_char (n mod 10))"
      by (subst show_nat.simps) (simp add: read_nat_snoc)
    with False "1.IH" show ?thesis by (simp add: digit_val_digit_char)
  qed
qed

lemma show_nat_plain: "c \<in> set (show_nat n) \<Longrightarrow> c \<noteq> CHR '' '' \<and> c \<noteq> CHR ''.''"
proof (induction n rule: show_nat.induct)
  case (1 n)
  show ?case
  proof (cases "n < 10")
    case True
    with "1.prems" show ?thesis
      by (subst (asm) show_nat.simps) (simp add: digit_char_plain)
  next
    case False
    with "1.prems" have "c \<in> set (show_nat (n div 10)) \<or> c = digit_char (n mod 10)"
      by (subst (asm) show_nat.simps) auto
    with False "1.IH" show ?thesis using digit_char_plain [of "n mod 10"] by auto
  qed
qed

lemma digit_char_digit: "d < 10 \<Longrightarrow> digit_char d \<in> set ''0123456789''"
  by (erule digit_char_cases) (simp_all add: digit_char_def)

lemma digit_char_zero: "d < 10 \<Longrightarrow> digit_char d = CHR ''0'' \<Longrightarrow> d = 0"
  by (erule digit_char_cases) (simp_all add: digit_char_def)

lemma show_nat_nonempty: "show_nat n \<noteq> []"
  by (subst show_nat.simps) simp

lemma show_nat_digits: "set (show_nat n) \<subseteq> set ''0123456789''"
proof (induction n rule: show_nat.induct)
  case (1 n)
  show ?case
  proof (cases "n < 10")
    case True
    then have "show_nat n = [digit_char n]" by (rule show_nat_digit)
    with digit_char_digit [OF True] show ?thesis by simp
  next
    case False
    then have "show_nat n = show_nat (n div 10) @ [digit_char (n mod 10)]"
      by (subst show_nat.simps) simp
    moreover have "digit_char (n mod 10) \<in> set ''0123456789''"
      by (rule digit_char_digit) simp
    ultimately show ?thesis using "1.IH" [OF False] by simp
  qed
qed

text \<open>No leading zero: only the number 0 is printed with a first digit 0.\<close>

lemma show_nat_leading:
  "hd (show_nat n) = CHR ''0'' \<Longrightarrow> n = 0"
proof (induction n rule: show_nat.induct)
  case (1 n)
  show ?case
  proof (cases "n < 10")
    case True
    then have "show_nat n = [digit_char n]" by (rule show_nat_digit)
    with "1.prems" have "digit_char n = CHR ''0''" by simp
    with True show ?thesis by (rule digit_char_zero)
  next
    case False
    then have "show_nat n = show_nat (n div 10) @ [digit_char (n mod 10)]"
      by (subst show_nat.simps) simp
    with "1.prems" have "hd (show_nat (n div 10)) = CHR ''0''"
      by (simp add: show_nat_nonempty)
    from "1.IH" [OF False this] False show ?thesis by simp
  qed
qed

lemma shown_B:
  "shown_number (show_nat n @ '' B'') = show_nat n" "shown_unit (show_nat n @ '' B'') = '' B''"
  using show_nat_plain [of _ n]
  by (simp_all add: shown_number_def shown_unit_def takeWhile_append2 dropWhile_append2)

lemma read_tenths_show_nat: "read_tenths (show_nat n) = 10 * n"
proof -
  have tw: "takeWhile (\<lambda>c. c \<noteq> CHR ''.'') (show_nat n) = show_nat n"
    using show_nat_plain [of _ n] by (simp add: takeWhile_eq_all_conv)
  have dw: "dropWhile (\<lambda>c. c \<noteq> CHR ''.'') (show_nat n) = []"
    using show_nat_plain [of _ n] by (simp add: dropWhile_eq_Nil_conv)
  show ?thesis unfolding read_tenths_def tw dw by (simp add: read_nat_show_nat read_nat_Nil)
qed

lemma format_f1_nonneg:
  assumes "0 \<le> num" "0 \<le> tenths num den"
  shows "shown_number (format_f1 num den @ '' '' @ rest) = format_f1 num den"
    and "shown_unit (format_f1 num den @ '' '' @ rest) = '' '' @ rest"
    and "read_tenths (format_f1 num den) = nat (tenths num den)"
proof -
  define t where "t = tenths num den"
  define ip where "ip = show_nat (nat (t div 10))"
  define d where "d = digit_char (nat (t mod 10))"
  have dlt: "nat (t mod 10) < 10" by simp
  have f: "format_f1 num den = ip @ [CHR ''.'', d]"
    using assms(1) by (simp add: format_f1_def Let_def t_def ip_def d_def)
  have ipp: "\<And>c. c \<in> set ip \<Longrightarrow> c \<noteq> CHR '' '' \<and> c \<noteq> CHR ''.''"
    unfolding ip_def by (rule show_nat_plain)
  have dp: "d \<noteq> CHR '' ''" "d \<noteq> CHR ''.''"
    unfolding d_def using digit_char_plain [OF dlt] by simp_all
  show "shown_number (format_f1 num den @ '' '' @ rest) = format_f1 num den"
    using ipp dp by (simp add: f shown_number_def takeWhile_append2)
  show "shown_unit (format_f1 num den @ '' '' @ rest) = '' '' @ rest"
    using ipp dp by (simp add: f shown_unit_def dropWhile_append2)
  have "read_tenths (ip @ [CHR ''.'', d]) = 10 * read_nat ip + read_nat [d]"
    using ipp by (simp add: read_tenths_def takeWhile_append2 dropWhile_append2)
  also have "\<dots> = 10 * nat (t div 10) + nat (t mod 10)"
    by (simp add: ip_def d_def read_nat_show_nat read_nat_single digit_val_digit_char [OF dlt])
  also have "\<dots> = nat t"
  proof -
    have "0 \<le> t" using assms(2) by (simp add: t_def)
    then have "nat (t div 10) = nat t div 10" "nat (t mod 10) = nat t mod 10"
      by (simp_all add: nat_div_distrib nat_mod_distrib)
    then show ?thesis by simp
  qed
  finally show "read_tenths (format_f1 num den) = nat (tenths num den)"
    by (simp add: f t_def)
qed

subsection \<open>The two shapes of the result\<close>

text \<open>The outcome of the formatter on a byte count of at least 1024.\<close>

lemma ByteCountIEC_scaled:
  assumes "1024 \<le> b" "b < 2 ^ 63"
  shows "\<exists>ex. ex \<le> 5 \<and> 1024 ^ (ex + 1) \<le> b \<and> b < 1024 ^ (ex + 2)
           \<and> scale_loop ''B'' (quo b (unit_of ''B'')) (wrap64 (unit_of ''B'')) 0
               = Inr (1024 ^ (ex + 1), ex)
           \<and> ByteCountIEC b ''B''
               = Inr (format_f1 (float64_of_int b) (1024 ^ (ex + 1)) @ '' '' @ [''KMGTPE'' ! ex] @ ''iB'')"
proof -
  have q: "quo b 1024 = b div 1024" using assms(1) by (simp add: quo_nonneg)
  have w: "wrap64 1024 = 1024" by (simp add: wrap64_def)
  from scale_loop_B [of "''B''" 1024 0 b "b div 1024"] assms
  obtain ex where l: "scale_loop ''B'' (b div 1024) 1024 0 = Inr (1024 ^ (ex + 1), ex)"
    and lo: "1024 ^ (ex + 1) \<le> b" and hi: "b < 1024 ^ (ex + 2)" by auto
  have e5: "ex \<le> 5" by (rule band_exp_le5 [OF lo assms(2)])
  have fp: "float64_of_int (1024 * 1024 ^ ex) = 1024 * 1024 ^ ex"
    using float64_of_int_pow1024 [OF e5] by simp
  have "ByteCountIEC b ''B''
      = Inr (format_f1 (float64_of_int b) (1024 ^ (ex + 1)) @ '' '' @ [''KMGTPE'' ! ex] @ ''iB'')"
    using assms(1) e5 l
    by (simp add: ByteCountIEC_def Let_def unit_of_B q w fp)
  with e5 lo hi l show ?thesis by (auto simp add: unit_of_B q w)
qed

lemma ByteCountIEC_small:
  assumes "0 \<le> b" "b < 1024"
  shows "ByteCountIEC b ''B'' = Inr (show_nat (nat b) @ '' B'')"
  using assms by (simp add: ByteCountIEC_def Let_def unit_of_B show_int_def)

lemma prefix_inj:
  assumes "e1 \<le> 5" "e2 \<le> 5" "''KMGTPE'' ! e1 = ''KMGTPE'' ! e2"
  shows "e1 = e2"
proof -
  from assms(1) consider "e1 = 0" | "e1 = 1" | "e1 = 2" | "e1 = 3" | "e1 = 4" | "e1 = 5" by linarith
  then show ?thesis
  proof cases
    case 1
    from assms(2) consider "e2 = 0" | "e2 = 1" | "e2 = 2" | "e2 = 3" | "e2 = 4" | "e2 = 5" by linarith
    then show ?thesis using 1 assms(3) by cases simp_all
  next
    case 2
    from assms(2) consider "e2 = 0" | "e2 = 1" | "e2 = 2" | "e2 = 3" | "e2 = 4" | "e2 = 5" by linarith
    then show ?thesis using 2 assms(3) by cases simp_all
  next
    case 3
    from assms(2) consider "e2 = 0" | "e2 = 1" | "e2 = 2" | "e2 = 3" | "e2 = 4" | "e2 = 5" by linarith
    then show ?thesis using 3 assms(3) by cases simp_all
  next
    case 4
    from assms(2) consider "e2 = 0" | "e2 = 1" | "e2 = 2" | "e2 = 3" | "e2 = 4" | "e2 = 5" by linarith
    then show ?thesis using 4 assms(3) by cases simp_all
  next
    case 5
    from assms(2) consider "e2 = 0" | "e2 = 1" | "e2 = 2" | "e2 = 3" | "e2 = 4" | "e2 = 5" by linarith
    then show ?thesis using 5 assms(3) by cases simp_all
  next
    case 6
    from assms(2) consider "e2 = 0" | "e2 = 1" | "e2 = 2" | "e2 = 3" | "e2 = 4" | "e2 = 5" by linarith
    then show ?thesis using 6 assms(3) by cases simp_all
  qed
qed

text \<open>A unit string other than \<open>B\<close>: a negative count is printed, any other count divides by zero.\<close>

lemma ByteCountIEC_other_unit:
  "uValue \<noteq> ''B'' \<Longrightarrow>
     ByteCountIEC b uValue = (if b < 0 then Inr (show_int b @ '' B'') else Inl DivideByZero)"
  by (simp add: ByteCountIEC_def unit_of_def)

subsection \<open>Evaluations\<close>

lemma show_nat_500: "show_nat 500 = ''500''"
  by (simp add: show_nat.simps digit_char_def)

lemma eval_1536: "ByteCountIEC 1536 ''B'' = Inr ''1.5 KiB''"
  by code_simp

lemma eval_2048: "ByteCountIEC 2048 ''B'' = Inr ''2.0 KiB''"
  by code_simp

section \<open>The claims about the formatter\<close>

text \<open>
  C2. The claim: for every non-negative \<open>b\<close> and every unit string other than \<open>B\<close> the
  formatter returns \<open><b> B\<close> without faulting. The code does not: with the unit \<open>KB\<close> the
  base stays \<open>0\<close>, the test \<open>b < unit\<close> fails for \<open>b = 2048\<close>, and \<^verbatim>\<open>b / unit\<close> divides
  by zero.
\<close>

theorem ByteCountIEC_other_unit_panics:
  "ByteCountIEC 2048 ''KB'' = Inl DivideByZero"
  by (simp add: ByteCountIEC_def unit_of_def)

text \<open>
  C6. For every non-negative \<open>b\<close> below 1024 and the unit \<open>B\<close>, the formatter returns
  exactly \<open><b> B\<close>. Read back, the returned string has the unit \<open>B\<close> after one blank, and
  before the blank a number made of decimal digits only (no scaling, no decimal point,
  no sign), without a leading zero, whose value is \<open>b\<close>; there is one such string. For
  500 it is \<open>500 B\<close>.
\<close>

theorem ByteCountIEC_bytes:
  assumes "0 \<le> b" "b < 1024"
  shows "\<exists>s. ByteCountIEC b ''B'' = Inr s
           \<and> s = shown_number s @ '' B'' \<and> shown_unit s = '' B''
           \<and> shown_number s \<noteq> [] \<and> set (shown_number s) \<subseteq> set ''0123456789''
           \<and> (hd (shown_number s) = CHR ''0'' \<longrightarrow> shown_number s = ''0'')
           \<and> int (read_nat (shown_number s)) = b"
proof -
  define s where "s = show_nat (nat b) @ '' B''"
  have r: "ByteCountIEC b ''B'' = Inr s"
    using assms by (simp add: ByteCountIEC_small s_def)
  have n: "shown_number s = show_nat (nat b)" and u: "shown_unit s = '' B''"
    by (simp_all add: s_def shown_B)
  have z: "shown_number s = ''0''" if "hd (shown_number s) = CHR ''0''"
  proof -
    from that have "nat b = 0" unfolding n by (rule show_nat_leading)
    then show ?thesis unfolding n by (simp add: show_nat_digit digit_char_def)
  qed
  have v: "int (read_nat (shown_number s)) = b"
    using assms(1) by (simp add: n read_nat_show_nat)
  have "s = shown_number s @ '' B''" by (simp add: n) (simp add: s_def)
  with r n u z v show ?thesis
    using show_nat_nonempty [of "nat b"] show_nat_digits [of "nat b"] by auto
qed

theorem ByteCountIEC_bytes_witness:
  "(0::int) \<le> 500 \<and> (500::int) < 1024 \<and> ByteCountIEC 500 ''B'' = Inr ''500 B''
   \<and> shown_number ''500 B'' = ''500'' \<and> shown_unit ''500 B'' = '' B''
   \<and> int (read_nat (shown_number ''500 B'')) = 500"
proof -
  have e: "ByteCountIEC 500 ''B'' = Inr ''500 B''"
    by (simp add: ByteCountIEC_def Let_def unit_of_B show_int_def show_nat_500)
  from ByteCountIEC_bytes [of 500] e
  have "shown_unit ''500 B'' = '' B'' \<and> int (read_nat (shown_number ''500 B'')) = 500"
    by simp
  with e show ?thesis by (simp add: shown_number_def)
qed

text \<open>
  C5. For every \<open>b\<close> from 1024 up to, but not including, \<open>1024^2\<close> and the unit \<open>B\<close>, the
  formatter returns \<open><x.y> KiB\<close>, where \<open>x.y\<close> (the number \<open>t / 10\<close> below) is \<open>b / 1024\<close>
  rounded to one decimal: it is within one twentieth of \<open>b / 1024\<close>. For 2048 this is
  \<open>2.0 KiB\<close>.
\<close>

theorem ByteCountIEC_KiB:
  assumes "1024 \<le> b" "b < 1024 ^ 2"
  shows "\<exists>t. ByteCountIEC b ''B''
               = Inr (show_nat (t div 10) @ ''.'' @ show_nat (t mod 10) @ '' KiB'')
           \<and> \<bar>real_of_int b / 1024 - real t / 10\<bar> \<le> 1 / 20"
proof -
  have b63: "b < 2 ^ 63" using assms(2) by simp
  from ByteCountIEC_scaled [OF assms(1) b63] obtain ex where
    lo: "1024 ^ (ex + 1) \<le> b" and hi: "b < 1024 ^ (ex + 2)" and
    r: "ByteCountIEC b ''B''
          = Inr (format_f1 (float64_of_int b) (1024 ^ (ex + 1)) @ '' '' @ [''KMGTPE'' ! ex] @ ''iB'')"
    by blast
  have "ex = 0" by (rule band_unique [OF lo hi]) (use assms in simp_all)
  have fb: "float64_of_int b = b" using assms by (intro float64_of_int_small) simp_all
  define t where "t = tenths b 1024"
  have t0: "0 \<le> t" unfolding t_def by (rule tenths_nonneg) simp
  have tm: "nat (t mod 10) < 10" by simp
  have dv: "nat (t div 10) = nat t div 10" "nat (t mod 10) = nat t mod 10"
    using t0 by (simp_all add: nat_div_distrib nat_mod_distrib)
  have "ByteCountIEC b ''B''
      = Inr (show_nat (nat t div 10) @ ''.'' @ show_nat (nat t mod 10) @ '' KiB'')"
    using r assms(1) tm
    by (simp add: \<open>ex = 0\<close> fb format_f1_def Let_def t_def [symmetric] show_nat_digit dv)
  moreover have "\<bar>real_of_int b / 1024 - real (nat t) / 10\<bar> \<le> 1 / 20"
  proof -
    have "\<bar>2 * (b * 10 - 1024 * t)\<bar> \<le> 1024"
      using rhe_nearest [of 1024 "\<bar>b\<bar> * 10"] assms(1) by (simp add: t_def tenths_def)
    then have "\<bar>real_of_int (2 * (b * 10 - 1024 * t))\<bar> \<le> 1024"
      by (metis of_int_abs of_int_le_iff of_int_numeral)
    moreover have "real (nat t) = real_of_int t" using t0 by simp
    ultimately show ?thesis by (simp add: field_simps abs_if split: if_splits)
  qed
  ultimately show ?thesis by blast
qed

theorem ByteCountIEC_KiB_witness:
  "(1024::int) \<le> 2048 \<and> (2048::int) < 1024 ^ 2 \<and> ByteCountIEC 2048 ''B'' = Inr ''2.0 KiB''"
proof -
  from ByteCountIEC_KiB [of 2048] obtain t :: nat where
    r: "ByteCountIEC 2048 ''B'' = Inr (show_nat (t div 10) @ ''.'' @ show_nat (t mod 10) @ '' KiB'')"
    and n: "\<bar>real_of_int 2048 / 1024 - real t / 10\<bar> \<le> 1 / 20" by auto
  from n have "t = 20" by (simp add: abs_if field_simps split: if_splits)
  with r show ?thesis by (simp add: show_nat_digit digit_char_def)
qed

text \<open>
  C7. With the unit \<open>B\<close> the formatter is monotonic within a band: for non-negative
  \<open>b1 \<le> b2\<close> whose results carry the same unit (the same prefix, hence the same
  divisor), the number printed for \<open>b2\<close> is not smaller than the one printed for \<open>b1\<close>.
  Both calls return. The conversion to float64 rounds counts of more than 53 bits; the
  statement covers them.
\<close>

theorem ByteCountIEC_monotonic:
  assumes "0 \<le> b1" "b1 \<le> b2" "b2 < 2 ^ 63"
  shows "\<exists>s1 s2. ByteCountIEC b1 ''B'' = Inr s1 \<and> ByteCountIEC b2 ''B'' = Inr s2
           \<and> (shown_unit s1 = shown_unit s2
                \<longrightarrow> read_tenths (shown_number s1) \<le> read_tenths (shown_number s2))"
proof (cases "b2 < 1024")
  case True
  with assms have s: "ByteCountIEC b1 ''B'' = Inr (show_nat (nat b1) @ '' B'')"
    "ByteCountIEC b2 ''B'' = Inr (show_nat (nat b2) @ '' B'')"
    by (simp_all add: ByteCountIEC_small)
  have "read_tenths (shown_number (show_nat (nat b1) @ '' B''))
          \<le> read_tenths (shown_number (show_nat (nat b2) @ '' B''))"
    using assms by (simp add: shown_B read_tenths_show_nat)
  with s show ?thesis by blast
next
  case False
  then have b2: "1024 \<le> b2" by simp
  from ByteCountIEC_scaled [OF b2 assms(3)] obtain e2 where
    e2: "e2 \<le> 5" "1024 ^ (e2 + 1) \<le> b2" "b2 < 1024 ^ (e2 + 2)" and
    r2: "ByteCountIEC b2 ''B''
          = Inr (format_f1 (float64_of_int b2) (1024 ^ (e2 + 1)) @ '' '' @ [''KMGTPE'' ! e2] @ ''iB'')"
    by blast
  have f2: "0 \<le> float64_of_int b2"
    using float64_of_int_mono [of 0 b2] b2 by (simp add: float64_of_int_def)
  have t2: "0 \<le> tenths (float64_of_int b2) (1024 ^ (e2 + 1))" by (rule tenths_nonneg) simp
  note sh2 = format_f1_nonneg [OF f2 t2]
  show ?thesis
  proof (cases "b1 < 1024")
    case True
    with assms have r1: "ByteCountIEC b1 ''B'' = Inr (show_nat (nat b1) @ '' B'')"
      by (simp add: ByteCountIEC_small)
    have "shown_unit (show_nat (nat b1) @ '' B'')
        \<noteq> shown_unit (format_f1 (float64_of_int b2) (1024 ^ (e2 + 1)) @ '' ''
                        @ [''KMGTPE'' ! e2] @ ''iB'')"
      by (simp only: shown_B sh2) simp
    with r1 r2 show ?thesis by blast
  next
    case False
    then have b1: "1024 \<le> b1" by simp
    have b1': "b1 < 2 ^ 63" using assms by simp
    from ByteCountIEC_scaled [OF b1 b1'] obtain e1 where
      e1: "e1 \<le> 5" "1024 ^ (e1 + 1) \<le> b1" "b1 < 1024 ^ (e1 + 2)" and
      r1: "ByteCountIEC b1 ''B''
            = Inr (format_f1 (float64_of_int b1) (1024 ^ (e1 + 1)) @ '' '' @ [''KMGTPE'' ! e1] @ ''iB'')"
      by blast
    have f1: "0 \<le> float64_of_int b1"
      using float64_of_int_mono [of 0 b1] b1 by (simp add: float64_of_int_def)
    have t1: "0 \<le> tenths (float64_of_int b1) (1024 ^ (e1 + 1))" by (rule tenths_nonneg) simp
    note sh1 = format_f1_nonneg [OF f1 t1]
    have "read_tenths (shown_number (format_f1 (float64_of_int b1) (1024 ^ (e1 + 1)) @ '' ''
                                     @ [''KMGTPE'' ! e1] @ ''iB''))
          \<le> read_tenths (shown_number (format_f1 (float64_of_int b2) (1024 ^ (e2 + 1)) @ '' ''
                                        @ [''KMGTPE'' ! e2] @ ''iB''))"
      if u: "shown_unit (format_f1 (float64_of_int b1) (1024 ^ (e1 + 1)) @ '' ''
                         @ [''KMGTPE'' ! e1] @ ''iB'')
           = shown_unit (format_f1 (float64_of_int b2) (1024 ^ (e2 + 1)) @ '' ''
                         @ [''KMGTPE'' ! e2] @ ''iB'')"
    proof -
      from u have "''KMGTPE'' ! e1 = ''KMGTPE'' ! e2" by (simp only: sh1 sh2) simp
      then have "e1 = e2" by (rule prefix_inj [OF e1(1) e2(1)])
      have "float64_of_int b1 \<le> float64_of_int b2"
        by (rule float64_of_int_mono [OF assms(1,2)])
      then have "tenths (float64_of_int b1) (1024 ^ (e2 + 1))
          \<le> tenths (float64_of_int b2) (1024 ^ (e2 + 1))"
        using f1 by (intro tenths_mono) simp_all
      then have "nat (tenths (float64_of_int b1) (1024 ^ (e1 + 1)))
          \<le> nat (tenths (float64_of_int b2) (1024 ^ (e2 + 1)))"
        unfolding \<open>e1 = e2\<close> by simp
      then show ?thesis by (simp only: sh1 sh2)
    qed
    with r1 r2 show ?thesis by blast
  qed
qed

theorem ByteCountIEC_monotonic_witness:
  "(0::int) \<le> 1536 \<and> (1536::int) \<le> 2048 \<and> (2048::int) < 2 ^ 63
   \<and> ByteCountIEC 1536 ''B'' = Inr ''1.5 KiB'' \<and> ByteCountIEC 2048 ''B'' = Inr ''2.0 KiB''
   \<and> shown_unit ''1.5 KiB'' = shown_unit ''2.0 KiB''
   \<and> read_tenths (shown_number ''1.5 KiB'') \<le> read_tenths (shown_number ''2.0 KiB'')"
proof -
  have u: "shown_unit ''1.5 KiB'' = shown_unit ''2.0 KiB''" by (simp add: shown_unit_def)
  from ByteCountIEC_monotonic [of 1536 2048] u
  have "read_tenths (shown_number ''1.5 KiB'') \<le> read_tenths (shown_number ''2.0 KiB'')"
    by (simp add: eval_1536 eval_2048)
  with u show ?thesis by (simp add: eval_1536 eval_2048)
qed

text \<open>
  C10. For every non-negative 64-bit \<open>b\<close> and the unit \<open>B\<close>, the formatter returns a
  string; when the loop is reached (\<open>1024 \<le> b\<close>) it ends with an exponent of at most 5,
  inside the six letters of \<open>KMGTPE\<close>, so the indexing does not panic.
\<close>

theorem ByteCountIEC_exponent_bound:
  assumes "0 \<le> b" "b < 2 ^ 63"
  shows "(\<exists>s. ByteCountIEC b ''B'' = Inr s)
       \<and> (1024 \<le> b \<longrightarrow>
            (\<exists>dv ex. scale_loop ''B'' (quo b (unit_of ''B'')) (wrap64 (unit_of ''B'')) 0 = Inr (dv, ex)
                      \<and> ex \<le> 5 \<and> ex < length ''KMGTPE''))"
proof (cases "b < 1024")
  case True
  with assms show ?thesis by (simp add: ByteCountIEC_small)
next
  case False
  then have "1024 \<le> b" by simp
  from ByteCountIEC_scaled [OF this assms(2)] show ?thesis by fastforce
qed

theorem ByteCountIEC_exponent_bound_witness:
  "(0::int) \<le> 2 ^ 63 - 1 \<and> (2 ^ 63 - 1 :: int) < 2 ^ 63
   \<and> (\<exists>s. ByteCountIEC (2 ^ 63 - 1) ''B'' = Inr s)
   \<and> (1024::int) \<le> 2 ^ 63 - 1
   \<and> (\<exists>dv ex. scale_loop ''B'' (quo (2 ^ 63 - 1) (unit_of ''B'')) (wrap64 (unit_of ''B'')) 0
                 = Inr (dv, ex) \<and> ex \<le> 5 \<and> ex < length ''KMGTPE'')"
  using ByteCountIEC_exponent_bound [of "2 ^ 63 - 1"] by simp

section \<open>Properties of the command\<close>

subsection \<open>The validation loop\<close>

lemma Contains_iff: "Contains xs x \<longleftrightarrow> x \<in> set xs"
  by (simp add: Contains_def)

lemma check_zones_None: "check_zones regionZones region zones = None \<longleftrightarrow> set zones \<subseteq> set regionZones"
  by (induction zones) (simp_all add: Contains_iff)

lemma check_zones_Some:
  assumes "\<not> set zones \<subseteq> set regionZones"
  shows "\<exists>ok az rest. zones = ok @ az # rest \<and> set ok \<subseteq> set regionZones \<and> az \<notin> set regionZones
           \<and> check_zones regionZones region zones
               = Some (Errorf (''Expected a valid availability zone, ''
                               @ '''%s' doesn't belong to region '%s' availability zones'')
                         [az, region])"
  using assms
proof (induction zones)
  case Nil
  then show ?case by simp
next
  case (Cons z zones)
  show ?case
  proof (cases "z \<in> set regionZones")
    case True
    with Cons.prems have "\<not> set zones \<subseteq> set regionZones" by simp
    from Cons.IH [OF this] obtain ok az rest where
      "zones = ok @ az # rest" "set ok \<subseteq> set regionZones" "az \<notin> set regionZones"
      "check_zones regionZones region zones
         = Some (Errorf (''Expected a valid availability zone, ''
                         @ '''%s' doesn't belong to region '%s' availability zones'')
                   [az, region])" by blast
    with True have "z # zones = (z # ok) @ az # rest \<and> set (z # ok) \<subseteq> set regionZones
      \<and> az \<notin> set regionZones
      \<and> check_zones regionZones region (z # zones)
          = Some (Errorf (''Expected a valid availability zone, ''
                          @ '''%s' doesn't belong to region '%s' availability zones'')
                    [az, region])"
      by (simp add: Contains_iff)
    then show ?thesis by blast
  next
    case False
    then have "z # zones = [] @ z # zones \<and> set [] \<subseteq> set regionZones \<and> z \<notin> set regionZones
      \<and> check_zones regionZones region (z # zones)
          = Some (Errorf (''Expected a valid availability zone, ''
                          @ '''%s' doesn't belong to region '%s' availability zones'')
                    [z, region])"
      by (simp add: Contains_iff)
    then show ?thesis by blast
  qed
qed

subsection \<open>Before the listing call only errors are reported\<close>

lemma helper_reports:
  "list_all is_Errorf (map (\<lambda>(format, operands). Errorf format operands) reported)"
  by (induction reported) auto

lemma supported_regions_report_reports: "list_all is_Errorf (supported_regions_report e)"
  by (simp add: supported_regions_report_def split: option.splits)

lemma resolve_region_trace:
  "resolve_region e = Inr (t, awsClient, region) \<Longrightarrow> t = supported_regions_report e"
  by (auto simp add: resolve_region_def Let_def split: sum.splits if_splits prod.splits)

lemma resolve_region_reports:
  "resolve_region e = Inr (t, awsClient, region) \<Longrightarrow> list_all is_Errorf t"
  "resolve_region e = Inl (t, out) \<Longrightarrow> list_all is_Errorf t"
  using supported_regions_report_reports [of e]
  by (auto simp add: resolve_region_def Let_def helper_reports
        split: sum.splits if_splits prod.splits)

lemma select_zones_reports:
  "select_zones e awsClient t = Inl (t', out) \<Longrightarrow> list_all is_Errorf t \<Longrightarrow> list_all is_Errorf t'"
  by (auto simp add: select_zones_def Let_def split: sum.splits if_splits)

lemma check_zones_report: "check_zones regionZones region zones = Some ev \<Longrightarrow> is_Errorf ev"
  by (induction zones) (auto split: if_splits)

lemma validate_zones_reports:
  "validate_zones awsClient t sel = Inl (t', out) \<Longrightarrow> list_all is_Errorf t \<Longrightarrow> list_all is_Errorf t'"
  "validate_zones awsClient t sel = Inr t' \<Longrightarrow> t' = t"
  by (auto simp add: validate_zones_def split: sum.splits option.splits if_splits prod.splits
        dest: check_zones_report)

lemma prepare_InrE:
  assumes "prepare e = Inr (t, region)"
  obtains awsClient sel where "resolve_region e = Inr (t, awsClient, region)"
    and "select_zones e awsClient t = Inr sel" and "validate_zones awsClient t sel = Inr t"
proof -
  from assms obtain t0 awsClient sel where r: "resolve_region e = Inr (t0, awsClient, region)"
    and s: "select_zones e awsClient t0 = Inr sel" and v: "validate_zones awsClient t0 sel = Inr t"
    by (auto simp add: prepare_def split: sum.splits prod.splits)
  from v have "t = t0" by (rule validate_zones_reports(2))
  with r s v that show ?thesis by simp
qed

lemma prepare_reports:
  "prepare e = Inr (t, region) \<Longrightarrow> list_all is_Errorf t"
  "prepare e = Inl (t, out) \<Longrightarrow> list_all is_Errorf t"
proof -
  show "list_all is_Errorf t" if "prepare e = Inr (t, region)"
    using that by (elim prepare_InrE) (rule resolve_region_reports(1))
  show "list_all is_Errorf t" if p: "prepare e = Inl (t, out)"
  proof (cases "resolve_region e")
    case (Inl f)
    with p have "resolve_region e = Inl (t, out)" by (simp add: prepare_def)
    then show ?thesis by (rule resolve_region_reports(2))
  next
    case (Inr x)
    then obtain t0 awsClient region where r: "resolve_region e = Inr (t0, awsClient, region)"
      by (cases x) auto
    have t0: "list_all is_Errorf t0" by (rule resolve_region_reports(1) [OF r])
    show ?thesis
    proof (cases "select_zones e awsClient t0")
      case (Inl f)
      with p r have "select_zones e awsClient t0 = Inl (t, out)" by (simp add: prepare_def)
      then show ?thesis using t0 by (rule select_zones_reports)
    next
      case (Inr sel)
      with p r have "validate_zones awsClient t0 sel = Inl (t, out)"
        by (simp add: prepare_def split: sum.splits)
      then show ?thesis using t0 by (rule validate_zones_reports(1))
    qed
  qed
qed

lemma reports_no_call:
  "list_all is_Errorf t \<Longrightarrow> GetAvailableMachineTypesInRegion_call r z a \<notin> set t"
  by (auto simp add: list_all_iff)

lemma reports_no_warning: "list_all is_Errorf t \<Longrightarrow> Warnf m \<notin> set t"
  by (auto simp add: list_all_iff)

subsection \<open>The listing call\<close>

lemma write_rows_appends:
  "\<exists>rows. fst (write_rows Items t) = t @ rows \<and> set rows \<subseteq> range Fprintf"
proof (induction Items arbitrary: t)
  case Nil
  then show ?case by simp
next
  case (Cons machine Items)
  show ?case
  proof (cases "Available machine")
    case False
    with Cons.IH [of t] show ?thesis by simp
  next
    case True
    show ?thesis
    proof (cases "ByteCountIEC (Memory (MachineType machine)) (MemoryUnit (MachineType machine))")
      case (Inl p)
      with True show ?thesis by simp
    next
      case (Inr memory)
      define row where "row = Fprintf (ID (MachineType machine) @ [CHR 0x09] @ Category (MachineType machine)
                                   @ [CHR 0x09] @ show_int (CPU (MachineType machine))
                                   @ [CHR 0x09] @ memory @ [CHR 0x0A])"
      from Cons.IH [of "t @ [row]"] obtain rows where
        "fst (write_rows Items (t @ [row])) = (t @ [row]) @ rows" "set rows \<subseteq> range Fprintf" by blast
      then have "fst (write_rows (machine # Items) t) = t @ (row # rows) \<and> set (row # rows) \<subseteq> range Fprintf"
        using True Inr by (simp add: Let_def row_def)
      then show ?thesis by blast
    qed
  qed
qed

text \<open>Where the requested zones come from.\<close>

lemma select_zones_result:
  assumes "select_zones e awsClient t = Inr (zones, isSet, selected)"
  shows "isSet = Changed_availability_zones e"
    and "selected \<Longrightarrow> interactive_Enabled e \<and> GetBool e = Inr True
           \<and> (\<exists>options. DescribeAvailabilityZones_prompt awsClient = Inr options
                          \<and> GetMultipleOptions e options = Inr zones)"
    and "\<not> selected \<Longrightarrow> zones = (if isSet then args_availabilityZones e else [])"
  using assms
  by (auto simp add: select_zones_def Let_def split: sum.splits if_splits)

lemma list_instance_types_trace:
  "\<exists>rest. fst (list_instance_types e region t)
            = t @ [Debugf ''Fetching instance types'',
                   GetAvailableMachineTypesInRegion_call region (args_availabilityZones e)
                     (args_roleArn e)] @ rest
          \<and> (\<forall>r z a. GetAvailableMachineTypesInRegion_call r z a \<notin> set rest)"
proof (cases "GetAvailableMachineTypesInRegion e region (args_availabilityZones e) (args_roleArn e)")
  case (Inl err)
  then show ?thesis by (simp add: list_instance_types_def)
next
  case (Inr Items)
  show ?thesis
  proof (cases "output_HasFlag e")
    case True
    with Inr show ?thesis by (simp add: list_instance_types_def Let_def split: option.splits)
  next
    case False
    show ?thesis
    proof (cases "Items = []")
      case True
      with Inr False show ?thesis by (simp add: list_instance_types_def)
    next
      case ne: False
      define t1 where "t1 = (t @ [Debugf ''Fetching instance types'',
                   GetAvailableMachineTypesInRegion_call region (args_availabilityZones e)
                     (args_roleArn e)]) @ [Fprintf table_header]"
      from write_rows_appends [of Items t1] obtain rows where
        rows: "fst (write_rows Items t1) = t1 @ rows" "set rows \<subseteq> range Fprintf" by blast
      obtain t' po where w: "write_rows Items t1 = (t', po)" by (cases "write_rows Items t1")
      with rows have t': "t' = t1 @ rows" by simp
      have "fst (list_instance_types e region t)
          = t' @ (case po of Some p \<Rightarrow> [Cleanup] | None \<Rightarrow> [Flush, Cleanup])"
        using Inr False ne w
        by (simp add: list_instance_types_def Let_def t1_def split: option.splits)
      then have "fst (list_instance_types e region t)
          = t @ [Debugf ''Fetching instance types'',
                   GetAvailableMachineTypesInRegion_call region (args_availabilityZones e)
                     (args_roleArn e)]
            @ (Fprintf table_header # rows
               @ (case po of Some p \<Rightarrow> [Cleanup] | None \<Rightarrow> [Flush, Cleanup]))"
        by (simp add: t' t1_def)
      moreover have "\<forall>r z a. GetAvailableMachineTypesInRegion_call r z a
          \<notin> set (Fprintf table_header # rows
               @ (case po of Some p \<Rightarrow> [Cleanup] | None \<Rightarrow> [Flush, Cleanup]))"
        using rows(2) by (auto split: option.splits)
      ultimately show ?thesis by blast
    qed
  qed
qed

lemma run_after_prepare:
  "prepare e = Inr (t, region) \<Longrightarrow> run e = list_instance_types e region t"
  "prepare e = Inl f \<Longrightarrow> run e = f"
  by (simp_all add: run_def)

lemma run_calls:
  assumes "GetAvailableMachineTypesInRegion_call r z a \<in> set (fst (run e))"
  shows "\<exists>t. prepare e = Inr (t, r) \<and> z = args_availabilityZones e \<and> a = args_roleArn e"
proof (cases "prepare e")
  case (Inl f)
  obtain t out where f: "f = (t, out)" by (cases f)
  with Inl have "list_all is_Errorf t" by (intro prepare_reports(2)) simp
  from reports_no_call [OF this] assms Inl f show ?thesis by (simp add: run_def)
next
  case (Inr x)
  obtain t region where x: "x = (t, region)" by (cases x)
  with Inr have p: "prepare e = Inr (t, region)" by simp
  then have t: "list_all is_Errorf t" by (rule prepare_reports(1))
  from list_instance_types_trace [of e region t] obtain rest where
    "fst (list_instance_types e region t)
            = t @ [Debugf ''Fetching instance types'',
                   GetAvailableMachineTypesInRegion_call region (args_availabilityZones e)
                     (args_roleArn e)] @ rest"
    "\<forall>r z a. GetAvailableMachineTypesInRegion_call r z a \<notin> set rest" by blast
  with assms reports_no_call [OF t] p show ?thesis by (auto simp add: run_after_prepare(1))
qed

subsection \<open>The sample runs, evaluated\<close>

lemmas sample_defs = plain_env_def bad_zone_env_def good_zone_env_def prompt_env_def empty_env_def
  unavailable_env_def empty_json_env_def unavailable_json_env_def regions_down_env_def
  flag_and_prompt_env_def other_region_env_def client_if_supported_def us_east_1_def

lemmas stage_defs = run_def prepare_def resolve_region_def supported_regions_report_def
  select_zones_def validate_zones_def list_instance_types_def Contains_def

lemma eval_m5_xlarge: "ByteCountIEC 17179869184 ''B'' = Inr ''16.0 GiB''"
  by code_simp

lemma run_plain_env:
  "run plain_env
     = ([Debugf ''Fetching instance types'',
         GetAvailableMachineTypesInRegion_call ''us-east-1'' [] [],
         Fprintf table_header,
         Fprintf (''m5.xlarge'' @ [CHR 0x09] @ ''general_purpose'' @ [CHR 0x09] @ ''4''
                  @ [CHR 0x09] @ ''16.0 GiB'' @ [CHR 0x0A]),
         Flush, Cleanup], Return)"
  by (simp add: stage_defs sample_defs m5_xlarge_def eval_m5_xlarge show_int_def show_nat_digit
        digit_char_def)

lemma run_bad_zone_env:
  "run bad_zone_env
     = ([Errorf (''Expected a valid availability zone, ''
                 @ '''%s' doesn't belong to region '%s' availability zones'')
           [''us-east-1z'', ''us-east-1'']], Exit 1)"
  by (simp add: stage_defs sample_defs)

section \<open>The claims about the command\<close>

text \<open>
  C1. The claim: every zone list the user requests, by the flag or at the prompt, that
  holds a zone outside the zone set of the resolved region makes the command fail, naming
  the zone and the region, before the listing call. It fails in interactive mode. With the
  flag \<open>us-east-1z\<close> and the user ticking \<open>us-east-1a\<close> at the zone prompt, the list of
  the prompt replaces the list of the flag (line 170), only it is checked, and the
  command lists and returns normally, the listing call carrying \<open>us-east-1z\<close>. And with
  the user picking \<open>eu-west-1\<close> at the region prompt, the zones of the flag are still
  checked against the zones of the client, built before the prompt, and the error names
  the region of the client, \<open>us-east-1\<close>, not the resolved one.
\<close>

theorem flag_zone_not_validated:
  "Changed_availability_zones flag_and_prompt_env
   \<and> args_availabilityZones flag_and_prompt_env = [''us-east-1z'']
   \<and> resolve_region flag_and_prompt_env = Inr ([], us_east_1, ''us-east-1'')
   \<and> DescribeAvailabilityZones_check us_east_1 = Inr [''us-east-1a'', ''us-east-1b'']
   \<and> run flag_and_prompt_env
       = ([Debugf ''Fetching instance types'',
           GetAvailableMachineTypesInRegion_call ''us-east-1'' [''us-east-1z''] [],
           Fprintf table_header,
           Fprintf (''m5.xlarge'' @ [CHR 0x09] @ ''general_purpose'' @ [CHR 0x09] @ ''4''
                    @ [CHR 0x09] @ ''16.0 GiB'' @ [CHR 0x0A]),
           Flush, Cleanup], Return)
   \<and> resolve_region other_region_env = Inr ([], us_east_1, ''eu-west-1'')
   \<and> run other_region_env
       = ([Errorf (''Expected a valid availability zone, ''
                   @ '''%s' doesn't belong to region '%s' availability zones'')
             [''eu-west-1a'', ''us-east-1'']], Exit 1)"
  by (simp add: stage_defs sample_defs m5_xlarge_def eval_m5_xlarge show_int_def show_nat_digit
        digit_char_def)

text \<open>
  C1, amended. Let the run reach the validation with the zone list then in effect
  (\<open>zones\<close>: the list chosen at the prompt when the user selected zones there, which
  replaces the list of the flag, and the list of the flag otherwise), and let the AWS
  client, built before the region prompt, answer with its zone list \<open>regionZones\<close>. If
  some zone of \<open>zones\<close> is not in \<open>regionZones\<close>, the run ends with exit status 1 after
  one call of \<^verbatim>\<open>Errorf\<close> whose operands are the first such zone (every zone before it is
  in the list) and the region of the client, and no listing call is issued. If every
  zone of \<open>zones\<close> is in \<open>regionZones\<close>, the listing call is issued.
\<close>

theorem zone_validation:
  assumes r: "resolve_region e = Inr (t, awsClient, region)"
      and s: "select_zones e awsClient t = Inr (zones, isSet, selected)"
      and req: "isSet \<or> selected"
      and d: "DescribeAvailabilityZones_check awsClient = Inr regionZones"
  shows "(\<not> set zones \<subseteq> set regionZones \<longrightarrow>
            (\<exists>ok az rest. zones = ok @ az # rest \<and> set ok \<subseteq> set regionZones
                \<and> az \<notin> set regionZones
                \<and> run e = (t @ [Errorf (''Expected a valid availability zone, ''
                                        @ '''%s' doesn't belong to region '%s' availability zones'')
                                  [az, client_GetRegion awsClient]], Exit 1))
            \<and> (\<forall>r z a. GetAvailableMachineTypesInRegion_call r z a \<notin> set (fst (run e))))
       \<and> (set zones \<subseteq> set regionZones \<longrightarrow>
            GetAvailableMachineTypesInRegion_call region (args_availabilityZones e) (args_roleArn e)
              \<in> set (fst (run e)))
       \<and> (if selected
           then \<exists>options. DescribeAvailabilityZones_prompt awsClient = Inr options
                          \<and> GetMultipleOptions e options = Inr zones
           else zones = args_availabilityZones e)"
proof (intro conjI impI)
  assume bad: "\<not> set zones \<subseteq> set regionZones"
  from check_zones_Some [OF bad, of "client_GetRegion awsClient"] obtain ok az rest where
    z: "zones = ok @ az # rest" "set ok \<subseteq> set regionZones" "az \<notin> set regionZones" and
    c: "check_zones regionZones (client_GetRegion awsClient) zones
          = Some (Errorf (''Expected a valid availability zone, ''
                          @ '''%s' doesn't belong to region '%s' availability zones'')
                    [az, client_GetRegion awsClient])" by blast
  have v: "validate_zones awsClient t (zones, isSet, selected)
      = Inl (t @ [Errorf (''Expected a valid availability zone, ''
                          @ '''%s' doesn't belong to region '%s' availability zones'')
                    [az, client_GetRegion awsClient]], Exit 1)"
    using req d c by (simp add: validate_zones_def)
  have run: "run e = (t @ [Errorf (''Expected a valid availability zone, ''
                                  @ '''%s' doesn't belong to region '%s' availability zones'')
                            [az, client_GetRegion awsClient]], Exit 1)"
    using r s v by (simp add: run_def prepare_def)
  with z show "\<exists>ok az rest. zones = ok @ az # rest \<and> set ok \<subseteq> set regionZones
                \<and> az \<notin> set regionZones
                \<and> run e = (t @ [Errorf (''Expected a valid availability zone, ''
                                        @ '''%s' doesn't belong to region '%s' availability zones'')
                                  [az, client_GetRegion awsClient]], Exit 1)"
    by blast
  have "list_all is_Errorf t" by (rule resolve_region_reports(1) [OF r])
  from reports_no_call [OF this]
  show "\<forall>r z a. GetAvailableMachineTypesInRegion_call r z a \<notin> set (fst (run e))"
    unfolding run by simp
next
  assume good: "set zones \<subseteq> set regionZones"
  then have "check_zones regionZones (client_GetRegion awsClient) zones = None"
    by (simp add: check_zones_None)
  then have "validate_zones awsClient t (zones, isSet, selected) = Inr t"
    using req d by (simp add: validate_zones_def)
  with r s have "run e = list_instance_types e region t" by (simp add: run_def prepare_def)
  with list_instance_types_trace [of e region t]
  show "GetAvailableMachineTypesInRegion_call region (args_availabilityZones e) (args_roleArn e)
              \<in> set (fst (run e))" by auto
next
  show "if selected
        then \<exists>options. DescribeAvailabilityZones_prompt awsClient = Inr options
                       \<and> GetMultipleOptions e options = Inr zones
        else zones = args_availabilityZones e"
    using select_zones_result [OF s] req by auto
qed

theorem zone_validation_witness:
  "run bad_zone_env
     = ([Errorf (''Expected a valid availability zone, ''
                 @ '''%s' doesn't belong to region '%s' availability zones'')
           [''us-east-1z'', ''us-east-1'']], Exit 1)
   \<and> (\<forall>r z a. GetAvailableMachineTypesInRegion_call r z a \<notin> set (fst (run bad_zone_env)))
   \<and> GetAvailableMachineTypesInRegion_call ''us-east-1'' [''us-east-1a''] []
        \<in> set (fst (run good_zone_env))
   \<and> select_zones prompt_env us_east_1 [] = Inr ([''us-east-1b''], False, True)
   \<and> GetAvailableMachineTypesInRegion_call ''us-east-1'' [] [] \<in> set (fst (run prompt_env))"
proof -
  have d: "DescribeAvailabilityZones_check us_east_1 = Inr [''us-east-1a'', ''us-east-1b'']"
    by (simp add: us_east_1_def)
  have r1: "resolve_region bad_zone_env = Inr ([], us_east_1, ''us-east-1'')"
    by (simp add: resolve_region_def supported_regions_report_def bad_zone_env_def plain_env_def)
  have s1: "select_zones bad_zone_env us_east_1 []
              = Inr ([''us-east-1a'', ''us-east-1z''], True, False)"
    by (simp add: select_zones_def bad_zone_env_def plain_env_def)
  have r2: "resolve_region good_zone_env = Inr ([], us_east_1, ''us-east-1'')"
    by (simp add: resolve_region_def supported_regions_report_def good_zone_env_def plain_env_def)
  have s2: "select_zones good_zone_env us_east_1 [] = Inr ([''us-east-1a''], True, False)"
    by (simp add: select_zones_def good_zone_env_def plain_env_def)
  have a2: "args_availabilityZones good_zone_env = [''us-east-1a'']" "args_roleArn good_zone_env = []"
    by (simp_all add: good_zone_env_def plain_env_def)
  have r3: "resolve_region prompt_env = Inr ([], us_east_1, ''us-east-1'')"
    by (simp add: resolve_region_def supported_regions_report_def prompt_env_def plain_env_def)
  have s3: "select_zones prompt_env us_east_1 [] = Inr ([''us-east-1b''], False, True)"
    by (simp add: select_zones_def prompt_env_def plain_env_def us_east_1_def)
  have a3: "args_availabilityZones prompt_env = []" "args_roleArn prompt_env = []"
    by (simp_all add: prompt_env_def plain_env_def)
  from zone_validation [OF r1 s1 _ d]
  have "\<forall>r z a. GetAvailableMachineTypesInRegion_call r z a \<notin> set (fst (run bad_zone_env))"
    by simp
  moreover from zone_validation [OF r2 s2 _ d]
  have "GetAvailableMachineTypesInRegion_call ''us-east-1'' [''us-east-1a''] []
        \<in> set (fst (run good_zone_env))"
    by (simp add: a2)
  moreover from zone_validation [OF r3 s3 _ d]
  have "GetAvailableMachineTypesInRegion_call ''us-east-1'' [] [] \<in> set (fst (run prompt_env))"
    by (simp add: a3)
  ultimately show ?thesis using s3 by (simp add: run_bad_zone_env)
qed

text \<open>
  C3. The claim: in table mode the warning and the failing exit come whenever nothing is
  left after the unavailable entries are removed. It fails for a fetched list with one
  unavailable machine type: nothing is left, yet the command writes the header of the
  table, flushes and returns, with no warning.
\<close>

theorem unavailable_only_no_warning:
  "\<not> output_HasFlag unavailable_env
   \<and> GetAvailableMachineTypesInRegion unavailable_env ''us-east-1'' [] [] = Inr [p4d_24xlarge]
   \<and> filter Available [p4d_24xlarge] = []
   \<and> run unavailable_env
       = ([Debugf ''Fetching instance types'',
           GetAvailableMachineTypesInRegion_call ''us-east-1'' [] [],
           Fprintf table_header, Flush, Cleanup], Return)"
  by (simp add: stage_defs sample_defs p4d_24xlarge_def)

text \<open>
  C3, amended. In table mode, whenever the fetched list itself is empty (the test of line
  224 precedes the removal of unavailable entries), the command warns that no machine
  types are supported for the account and ends with exit status 1.
\<close>

theorem empty_listing_warns:
  assumes "prepare e = Inr (t, region)"
      and "GetAvailableMachineTypesInRegion e region (args_availabilityZones e) (args_roleArn e)
             = Inr []"
      and "\<not> output_HasFlag e"
  shows "run e = (t @ [Debugf ''Fetching instance types'',
                       GetAvailableMachineTypesInRegion_call region (args_availabilityZones e)
                         (args_roleArn e),
                       Warnf no_machine_types], Exit 1)"
  using assms by (simp add: run_after_prepare(1) list_instance_types_def)

theorem empty_listing_warns_witness:
  "prepare empty_env = Inr ([], ''us-east-1'')
   \<and> GetAvailableMachineTypesInRegion empty_env ''us-east-1'' (args_availabilityZones empty_env)
        (args_roleArn empty_env) = Inr []
   \<and> \<not> output_HasFlag empty_env
   \<and> run empty_env = ([Debugf ''Fetching instance types'',
                       GetAvailableMachineTypesInRegion_call ''us-east-1'' [] [],
                       Warnf no_machine_types], Exit 1)"
proof -
  have p: "prepare empty_env = Inr ([], ''us-east-1'')"
    by (simp add: stage_defs sample_defs)
  have g: "GetAvailableMachineTypesInRegion empty_env ''us-east-1'' (args_availabilityZones empty_env)
        (args_roleArn empty_env) = Inr []"
    by (simp add: sample_defs)
  have h: "\<not> output_HasFlag empty_env" by (simp add: sample_defs)
  from empty_listing_warns [OF p g h] p g h show ?thesis by (simp add: sample_defs)
qed



text \<open>
  C8. Every listing call of a run is issued with the zone list of the flag variable,
  \<^verbatim>\<open>args.availabilityZones\<close>. The sample is a run without the flag in which the user
  ticks \<open>us-east-1b\<close> at the prompt: the list is validated and the call goes out with
  the empty list of the flag.
\<close>

theorem listing_uses_flag_zones:
  assumes "GetAvailableMachineTypesInRegion_call r z a \<in> set (fst (run e))"
  shows "z = args_availabilityZones e"
  using run_calls [OF assms] by blast

theorem listing_uses_flag_zones_witness:
  "select_zones prompt_env us_east_1 [] = Inr ([''us-east-1b''], False, True)
   \<and> GetAvailableMachineTypesInRegion_call ''us-east-1'' [] [] \<in> set (fst (run prompt_env))
   \<and> [] = args_availabilityZones prompt_env"
proof -
  have s: "select_zones prompt_env us_east_1 [] = Inr ([''us-east-1b''], False, True)"
    by (simp add: select_zones_def sample_defs)
  have c: "GetAvailableMachineTypesInRegion_call ''us-east-1'' [] [] \<in> set (fst (run prompt_env))"
    by (simp add: stage_defs sample_defs m5_xlarge_def eval_m5_xlarge)
  from listing_uses_flag_zones [OF c] s c show ?thesis by simp
qed

text \<open>
  C9. In structured-output mode, once the fetch has succeeded and the serializer returns
  no error, the command has printed every fetched machine type, whether available or not,
  and ends with exit status 0 at once, also for an empty list; no warning is part of the
  run.
\<close>

theorem structured_output:
  assumes "prepare e = Inr (t, region)"
      and "GetAvailableMachineTypesInRegion e region (args_availabilityZones e) (args_roleArn e)
             = Inr Items"
      and "output_HasFlag e"
      and "output_Print e (map MachineType Items) = None"
  shows "run e = (t @ [Debugf ''Fetching instance types'',
                       GetAvailableMachineTypesInRegion_call region (args_availabilityZones e)
                         (args_roleArn e),
                       Print (map MachineType Items)], Exit 0)
       \<and> (\<forall>m. Warnf m \<notin> set (fst (run e)))"
proof -
  have "list_all is_Errorf t" by (rule prepare_reports(1) [OF assms(1)])
  note reports_no_warning [OF this]
  moreover have "run e = (t @ [Debugf ''Fetching instance types'',
                       GetAvailableMachineTypesInRegion_call region (args_availabilityZones e)
                         (args_roleArn e),
                       Print (map MachineType Items)], Exit 0)"
    using assms by (simp add: run_after_prepare(1) list_instance_types_def)
  ultimately show ?thesis by simp
qed

theorem structured_output_witness:
  "run unavailable_json_env
     = ([Debugf ''Fetching instance types'',
         GetAvailableMachineTypesInRegion_call ''us-east-1'' [] [],
         Print [MachineType p4d_24xlarge]], Exit 0)
   \<and> run empty_json_env
     = ([Debugf ''Fetching instance types'',
         GetAvailableMachineTypesInRegion_call ''us-east-1'' [] [],
         Print []], Exit 0)
   \<and> (\<forall>m. Warnf m \<notin> set (fst (run empty_json_env)))"
proof -
  have p1: "prepare unavailable_json_env = Inr ([], ''us-east-1'')"
    by (simp add: stage_defs sample_defs)
  have g1: "GetAvailableMachineTypesInRegion unavailable_json_env ''us-east-1''
              (args_availabilityZones unavailable_json_env) (args_roleArn unavailable_json_env)
            = Inr [p4d_24xlarge]"
    by (simp add: sample_defs)
  have h1: "output_HasFlag unavailable_json_env"
    "output_Print unavailable_json_env (map MachineType [p4d_24xlarge]) = None"
    by (simp_all add: sample_defs)
  have p2: "prepare empty_json_env = Inr ([], ''us-east-1'')"
    by (simp add: stage_defs sample_defs)
  have g2: "GetAvailableMachineTypesInRegion empty_json_env ''us-east-1''
              (args_availabilityZones empty_json_env) (args_roleArn empty_json_env) = Inr []"
    by (simp add: sample_defs)
  have h2: "output_HasFlag empty_json_env" "output_Print empty_json_env (map MachineType []) = None"
    by (simp_all add: sample_defs)
  from structured_output [OF p1 g1 h1] structured_output [OF p2 g2 h2]
  show ?thesis by (simp add: sample_defs)
qed

end
